theory Spec2Isabelle
  imports Complex_Main "HOL-Library.AList"
begin

section \<open>NexusClip Linux companion daemon: data model\<close>

text \<open>
  The theory embeds \<^verbatim>\<open>linux_companion/nexusclip_daemon.py\<close>.

  A Python \<^verbatim>\<open>str\<close> is represented by its UTF-8 byte sequence, a \<^typ>\<open>string\<close>
  (one \<^typ>\<open>char\<close> is one byte). Every prefix, literal and separator of the wire
  protocol is ASCII, so \<^verbatim>\<open>startswith\<close>, slicing by the length of a prefix,
  \<^verbatim>\<open>split('|')\<close> and equality act on the bytes exactly as on the code points.
  With this representation \<^verbatim>\<open>s.encode('utf-8')\<close> is the identity and
  \<^verbatim>\<open>b.decode('utf-8')\<close> succeeds, returning \<open>b\<close>, exactly when \<open>b\<close> is well-formed
  UTF-8.

  A \<^verbatim>\<open>datetime\<close> is a rational number of seconds (its resolution is one
  microsecond); \<^verbatim>\<open>(a - b).total_seconds()\<close> is the difference.

  What the daemon asks of its collaborators is recorded as a list of events, in the order
  of the calls: \<^verbatim>\<open>socket.sendto\<close>, \<^verbatim>\<open>pyperclip.copy\<close> and \<^verbatim>\<open>print\<close>. An event is the
  call made. \<^verbatim>\<open>pyperclip.copy\<close> may raise inside the handler's \<^verbatim>\<open>try\<close>, which skips the
  rest of the handler: its outcome is an argument of the handler. An error of
  \<^verbatim>\<open>socket.sendto\<close> is caught inside \<^verbatim>\<open>_send_to\<close> and \<^verbatim>\<open>_broadcast\<close> and changes nothing
  of what follows the call; whether the socket succeeds is not part of the model. A
  printed line is recorded by its kind and its data (where the source prints a
  preview of a text, the event carries the text). What the daemon reads from outside (a
  datagram, a time-out, the pasted text, the clock, the host name) is an argument of the
  step that reads it.

  Each loop is run on the finite list of what its blocking call returns, one element per
  iteration, and stops early when \<open>running\<close> is false. A handler runs as one step: the
  snapshot is compared and set under \<^verbatim>\<open>clipboard_lock\<close> in the source.
\<close>

subsection \<open>Constants\<close>

definition SYNC_PORT :: nat where
  "SYNC_PORT = 4040"

definition BUFFER_SIZE :: nat where
  "BUFFER_SIZE = 65535"

definition DISCOVERY_MESSAGE :: string where
  "DISCOVERY_MESSAGE = ''NEXUSCLIP_DISCOVER''"

definition CLIPBOARD_PREFIX :: string where
  "CLIPBOARD_PREFIX = ''NEXUSCLIP_CLIP:''"

definition ACK_PREFIX :: string where
  "ACK_PREFIX = ''NEXUSCLIP_ACK:''"

definition DEVICE_PREFIX :: string where
  "DEVICE_PREFIX = ''NEXUSCLIP_DEVICE:''"

definition HEARTBEAT_MESSAGE :: string where
  "HEARTBEAT_MESSAGE = ''NEXUSCLIP_HEARTBEAT''"

definition BROADCAST_ADDRESS :: string where
  "BROADCAST_ADDRESS = ''255.255.255.255''"

definition stale_timeout :: rat where
  "stale_timeout = 120"

subsection \<open>Devices, daemon state, events\<close>

record device =
  address :: string
  platform :: string
  name :: string
  last_seen :: rat

text \<open>
  The fields of \<^verbatim>\<open>NexusClipDaemon\<close> that the handlers and loops read or write.
  \<open>discovered_devices\<close> is the dictionary in insertion order, one entry per key.
\<close>

record daemon =
  port :: nat
  verbose :: bool
  running :: bool
  discovered_devices :: "(string \<times> device) list"
  last_clipboard :: string

datatype py_error =
    ValueError
  | BinasciiError
  | UnicodeDecodeError
  | PyperclipException
  | OSError

text \<open>What one handler call gets from outside: \<^verbatim>\<open>datetime.now()\<close>, \<^verbatim>\<open>platform.node()\<close>,
  and the outcome of \<^verbatim>\<open>pyperclip.copy\<close> when the handler calls it: \<open>None\<close> when the call
  returns, the exception when it raises.\<close>

record env =
  now :: rat
  node :: string
  copy_error :: "py_error option"

datatype log_line =
    DeviceDiscovered device
  | DeviceDisconnected string
  | Received string
  | Sent string
  | RespondedToDiscovery string
  | AckFrom string string
  | ClipboardError py_error
  | ListenError py_error
  | MonitorError py_error

datatype event =
    SendTo string string nat
  | Copy string
  | Print log_line

section \<open>Library functions the daemon calls\<close>

subsection \<open>\<^verbatim>\<open>str.startswith\<close> and \<^verbatim>\<open>str.split\<close>\<close>

definition startswith :: "string \<Rightarrow> string \<Rightarrow> bool" where
  "startswith s p = (take (length p) s = p)"

text \<open>\<^verbatim>\<open>s.split(sep)\<close> for a one-character separator: every occurrence splits, and the
  result always has at least one field.\<close>

fun split :: "char \<Rightarrow> string \<Rightarrow> string list" where
  "split sep [] = [[]]"
| "split sep (c # cs) =
     (if c = sep then [] # split sep cs
      else (case split sep cs of [] \<Rightarrow> [[c]] | p # ps \<Rightarrow> (c # p) # ps))"

subsection \<open>UTF-8\<close>

definition byte_in :: "char \<Rightarrow> nat \<Rightarrow> nat \<Rightarrow> bool" where
  "byte_in c lo hi = (lo \<le> (of_char c :: nat) \<and> (of_char c :: nat) \<le> hi)"

text \<open>The number of bytes of the well-formed UTF-8 sequence at the head of the input, if
  there is one (the table of well-formed byte sequences: no overlong forms, no surrogates,
  nothing above U+10FFFF).\<close>

fun utf8_head :: "string \<Rightarrow> nat option" where
  "utf8_head [] = None"
| "utf8_head (c # cs) =
     (if byte_in c 0 127 then Some 1
      else if byte_in c 194 223 then
        (case cs of c1 # _ \<Rightarrow> if byte_in c1 128 191 then Some 2 else None | _ \<Rightarrow> None)
      else if byte_in c 224 239 then
        (case cs of c1 # c2 # _ \<Rightarrow>
           if byte_in c1 (if of_char c = (224::nat) then 160 else 128)
                         (if of_char c = (237::nat) then 159 else 191)
              \<and> byte_in c2 128 191
           then Some 3 else None
         | _ \<Rightarrow> None)
      else if byte_in c 240 244 then
        (case cs of c1 # c2 # c3 # _ \<Rightarrow>
           if byte_in c1 (if of_char c = (240::nat) then 144 else 128)
                         (if of_char c = (244::nat) then 143 else 191)
              \<and> byte_in c2 128 191 \<and> byte_in c3 128 191
           then Some 4 else None
         | _ \<Rightarrow> None)
      else None)"

function utf8_valid :: "string \<Rightarrow> bool" where
  "utf8_valid [] = True"
| "utf8_valid (c # cs) =
     (case utf8_head (c # cs) of
        None \<Rightarrow> False
      | Some n \<Rightarrow> utf8_valid (drop (n - 1) cs))"
  by pat_completeness auto
termination
  by (relation "measure length") auto

text \<open>\<^verbatim>\<open>b.decode('utf-8')\<close>.\<close>

definition decode_utf8 :: "string \<Rightarrow> py_error + string" where
  "decode_utf8 b = (if utf8_valid b then Inr b else Inl UnicodeDecodeError)"

subsection \<open>Base64\<close>

text \<open>The standard alphabet, as a function from the 6-bit value and back.\<close>

definition b64_char :: "nat \<Rightarrow> char" where
  "b64_char v =
     char_of (if v < 26 then v + 65
              else if v < 52 then v + 71
              else if v < 62 then v - 4
              else if v = 62 then 43
              else (47::nat))"

definition b64_value :: "char \<Rightarrow> nat option" where
  "b64_value c =
     (let n = (of_char c :: nat) in
      if 65 \<le> n \<and> n \<le> 90 then Some (n - 65)
      else if 97 \<le> n \<and> n \<le> 122 then Some (n - 71)
      else if 48 \<le> n \<and> n \<le> 57 then Some (n + 4)
      else if n = 43 then Some 62
      else if n = 47 then Some 63
      else None)"

text \<open>\<^verbatim>\<open>base64.b64encode\<close>: three bytes become four characters, the last group is padded
  with \<^verbatim>\<open>=\<close>.\<close>

fun b64encode :: "string \<Rightarrow> string" where
  "b64encode [] = []"
| "b64encode [a] =
     (let x = (of_char a :: nat) in
      [b64_char (x div 4), b64_char ((x mod 4) * 16), CHR ''='', CHR ''=''])"
| "b64encode [a, b] =
     (let x = (of_char a :: nat); y = (of_char b :: nat) in
      [b64_char (x div 4), b64_char ((x mod 4) * 16 + y div 16),
       b64_char ((y mod 16) * 4), CHR ''=''])"
| "b64encode (a # b # c # rest) =
     (let x = (of_char a :: nat); y = (of_char b :: nat); z = (of_char c :: nat) in
      [b64_char (x div 4), b64_char ((x mod 4) * 16 + y div 16),
       b64_char ((y mod 16) * 4 + z div 64), b64_char (z mod 64)] @ b64encode rest)"

text \<open>
  \<^verbatim>\<open>binascii.a2b_base64\<close> in its default, non-strict mode, as a loop over the characters
  with the decoder's variables: the position \<open>quad_pos\<close> in the group of four, the bits
  \<open>leftchar\<close> left over from the previous character, and the number \<open>pads\<close> of padding
  characters seen in a row. A character outside the alphabet is skipped. A padding
  character ends the input once the group is complete with it, and is skipped otherwise.
  At the end of the input an unfinished group is an error. The bit fields joined by the
  decoder's shifts and ors do not overlap, so the joins are sums here.
\<close>

fun a2b_base64 :: "nat \<Rightarrow> nat \<Rightarrow> nat \<Rightarrow> string \<Rightarrow> string \<Rightarrow> py_error + string" where
  "a2b_base64 quad_pos leftchar pads out [] =
     (if quad_pos \<noteq> 0 then Inl BinasciiError else Inr out)"
| "a2b_base64 quad_pos leftchar pads out (ch # rest) =
     (if ch = CHR ''='' then
        (if quad_pos \<ge> 2 \<and> quad_pos + (pads + 1) \<ge> 4 then Inr out
         else a2b_base64 quad_pos leftchar (if quad_pos \<ge> 2 then pads + 1 else pads) out rest)
      else
        (case b64_value ch of
           None \<Rightarrow> a2b_base64 quad_pos leftchar pads out rest
         | Some v \<Rightarrow>
             (if quad_pos = 0 then a2b_base64 1 v 0 out rest
              else if quad_pos = 1 then
                a2b_base64 2 (v mod 16) 0 (out @ [char_of (leftchar * 4 + v div 16)]) rest
              else if quad_pos = 2 then
                a2b_base64 3 (v mod 4) 0 (out @ [char_of (leftchar * 16 + v div 4)]) rest
              else
                a2b_base64 0 0 0 (out @ [char_of (leftchar * 64 + v)]) rest)))"

text \<open>\<^verbatim>\<open>base64.b64decode(s)\<close> for a \<^verbatim>\<open>str\<close> argument: the string must be ASCII
  (\<^verbatim>\<open>ValueError\<close> otherwise), then it is decoded.\<close>

definition b64decode :: "string \<Rightarrow> py_error + string" where
  "b64decode s =
     (if list_ex (\<lambda>c. (of_char c :: nat) \<ge> 128) s then Inl ValueError
      else a2b_base64 0 0 0 [] s)"

section \<open>The daemon\<close>

subsection \<open>Construction and start\<close>

text \<open>\<^verbatim>\<open>__init__\<close>, and the assignment \<^verbatim>\<open>self.running = True\<close> that \<^verbatim>\<open>start\<close> makes
  before the loops run.\<close>

definition init :: "nat \<Rightarrow> bool \<Rightarrow> daemon" where
  "init p v = \<lparr>port = p, verbose = v, running = False, discovered_devices = [],
                last_clipboard = []\<rparr>"

definition start :: "daemon \<Rightarrow> daemon" where
  "start st = st\<lparr>running := True\<rparr>"

subsection \<open>Sending\<close>

text \<open>\<^verbatim>\<open>_send_to\<close> and \<^verbatim>\<open>_broadcast\<close>: one \<^verbatim>\<open>socket.sendto\<close> with the whole message.\<close>

definition send_to :: "daemon \<Rightarrow> string \<Rightarrow> string \<Rightarrow> event list" where
  "send_to st message addr = [SendTo message addr (port st)]"

definition broadcast :: "daemon \<Rightarrow> string \<Rightarrow> event list" where
  "broadcast st message = [SendTo message BROADCAST_ADDRESS (port st)]"

subsection \<open>Handlers of inbound messages\<close>

definition respond_to_discovery :: "env \<Rightarrow> daemon \<Rightarrow> string \<Rightarrow> daemon \<times> event list" where
  "respond_to_discovery e st sender =
     (let device_name = (if node e \<noteq> [] then node e else ''Linux'');
          response = DEVICE_PREFIX @ ''Linux|'' @ device_name
      in (st, send_to st response sender
              @ (if verbose st then [Print (RespondedToDiscovery sender)] else [])))"

definition handle_device_response :: "env \<Rightarrow> daemon \<Rightarrow> string \<Rightarrow> string \<Rightarrow> daemon \<times> event list" where
  "handle_device_response e st message sender =
     (let parts = split CHR ''|'' (drop (length DEVICE_PREFIX) message) in
      if length parts \<ge> 2 then
        (let dev = \<lparr>address = sender, platform = parts ! 0, name = parts ! 1,
                    last_seen = now e\<rparr>
         in (st\<lparr>discovered_devices := AList.update sender dev (discovered_devices st)\<rparr>,
             [Print (DeviceDiscovered dev)]))
      else (st, []))"

text \<open>\<^verbatim>\<open>base64.b64decode(base64_content).decode('utf-8')\<close>: either call may raise.\<close>

definition decode_content :: "string \<Rightarrow> py_error + string" where
  "decode_content base64_content =
     (case b64decode base64_content of
        Inl err \<Rightarrow> Inl err
      | Inr bytes \<Rightarrow> decode_utf8 bytes)"

text \<open>\<^verbatim>\<open>_handle_clipboard\<close>. The snapshot is set before \<^verbatim>\<open>pyperclip.copy\<close> is called; when the
  call raises, the acknowledgment and the "received" line are skipped and the \<^verbatim>\<open>except\<close>
  branch prints the error, when the daemon is verbose.\<close>

definition handle_clipboard :: "env \<Rightarrow> daemon \<Rightarrow> string \<Rightarrow> string \<Rightarrow> daemon \<times> event list" where
  "handle_clipboard e st message sender =
     (case decode_content (drop (length CLIPBOARD_PREFIX) message) of
        Inl err \<Rightarrow> (st, if verbose st then [Print (ClipboardError err)] else [])
      | Inr content \<Rightarrow>
          if content \<noteq> last_clipboard st then
            (case copy_error e of
               None \<Rightarrow>
                 (st\<lparr>last_clipboard := content\<rparr>,
                  [Copy content] @ send_to st (ACK_PREFIX @ ''RECEIVED'') sender
                  @ [Print (Received content)])
             | Some err \<Rightarrow>
                 (st\<lparr>last_clipboard := content\<rparr>,
                  [Copy content] @ (if verbose st then [Print (ClipboardError err)] else [])))
          else (st, []))"

definition handle_ack :: "daemon \<Rightarrow> string \<Rightarrow> string \<Rightarrow> daemon \<times> event list" where
  "handle_ack st message sender =
     (let ack_type = drop (length ACK_PREFIX) message in
      (st, if verbose st then [Print (AckFrom sender ack_type)] else []))"

definition handle_heartbeat :: "env \<Rightarrow> daemon \<Rightarrow> string \<Rightarrow> daemon \<times> event list" where
  "handle_heartbeat e st sender =
     (case map_of (discovered_devices st) sender of
        None \<Rightarrow> (st, [])
      | Some dev \<Rightarrow>
          (st\<lparr>discovered_devices :=
                AList.update sender (dev\<lparr>last_seen := now e\<rparr>) (discovered_devices st)\<rparr>, []))"

definition handle_message :: "env \<Rightarrow> daemon \<Rightarrow> string \<Rightarrow> string \<Rightarrow> daemon \<times> event list" where
  "handle_message e st message sender =
     (if message = DISCOVERY_MESSAGE then respond_to_discovery e st sender
      else if startswith message DEVICE_PREFIX then handle_device_response e st message sender
      else if startswith message CLIPBOARD_PREFIX then handle_clipboard e st message sender
      else if startswith message ACK_PREFIX then handle_ack st message sender
      else if message = HEARTBEAT_MESSAGE then handle_heartbeat e st sender
      else (st, []))"

subsection \<open>The receive loop\<close>

text \<open>What one \<^verbatim>\<open>socket.recvfrom\<close> gives: a time-out, another exception, or a datagram
  with the address of its sender.\<close>

datatype recv =
    Timeout
  | RecvError
  | Datagram string string

definition listen_step :: "env \<Rightarrow> daemon \<Rightarrow> recv \<Rightarrow> daemon \<times> event list" where
  "listen_step e st r =
     (case r of
        Timeout \<Rightarrow> (st, [])
      | RecvError \<Rightarrow>
          (st, if running st \<and> verbose st then [Print (ListenError OSError)] else [])
      | Datagram data addr \<Rightarrow>
          (case decode_utf8 data of
             Inl err \<Rightarrow>
               (st, if running st \<and> verbose st then [Print (ListenError err)] else [])
           | Inr message \<Rightarrow> handle_message e st message addr))"

text \<open>The loop, run on the finite list of what the socket gives, each with the
  environment of that iteration.\<close>

fun listen_loop :: "daemon \<Rightarrow> (env \<times> recv) list \<Rightarrow> daemon \<times> event list" where
  "listen_loop st [] = (st, [])"
| "listen_loop st ((e, r) # rest) =
     (if running st then
        (case listen_step e st r of
           (st1, ev1) \<Rightarrow> (case listen_loop st1 rest of (st2, ev2) \<Rightarrow> (st2, ev1 @ ev2)))
      else (st, []))"

subsection \<open>The clipboard monitor\<close>

definition broadcast_clipboard :: "daemon \<Rightarrow> string \<Rightarrow> event list" where
  "broadcast_clipboard st content =
     (let encoded = b64encode content;
          message = CLIPBOARD_PREFIX @ encoded
      in broadcast st message @ [Print (Sent content)])"

text \<open>One iteration of \<^verbatim>\<open>_clipboard_monitor_loop\<close>; the argument is what
  \<^verbatim>\<open>pyperclip.paste()\<close> returned or raised.\<close>

definition clipboard_monitor_step :: "daemon \<Rightarrow> py_error + string \<Rightarrow> daemon \<times> event list" where
  "clipboard_monitor_step st pasted =
     (case pasted of
        Inl err \<Rightarrow> (st, if verbose st then [Print (MonitorError err)] else [])
      | Inr current \<Rightarrow>
          if current \<noteq> [] \<and> current \<noteq> last_clipboard st then
            (st\<lparr>last_clipboard := current\<rparr>, broadcast_clipboard (st\<lparr>last_clipboard := current\<rparr>) current)
          else (st, []))"

fun clipboard_monitor_loop :: "daemon \<Rightarrow> (py_error + string) list \<Rightarrow> daemon \<times> event list" where
  "clipboard_monitor_loop st [] = (st, [])"
| "clipboard_monitor_loop st (p # rest) =
     (if running st then
        (case clipboard_monitor_step st p of
           (st1, ev1) \<Rightarrow>
             (case clipboard_monitor_loop st1 rest of (st2, ev2) \<Rightarrow> (st2, ev1 @ ev2)))
      else (st, []))"

subsection \<open>Heartbeat and clean-up\<close>

definition is_stale :: "rat \<Rightarrow> device \<Rightarrow> bool" where
  "is_stale t dev = (t - last_seen dev > stale_timeout)"

text \<open>The \<^verbatim>\<open>for addr in stale_devices\<close> loop: \<^verbatim>\<open>pop(addr, None)\<close>, and a line for each
  device popped.\<close>

fun pop_stale :: "string list \<Rightarrow> (string \<times> device) list \<Rightarrow> (string \<times> device) list \<times> event list" where
  "pop_stale [] devs = (devs, [])"
| "pop_stale (addr # addrs) devs =
     (case map_of devs addr of
        None \<Rightarrow> pop_stale addrs devs
      | Some dev \<Rightarrow>
          (case pop_stale addrs (AList.delete addr devs) of
             (devs', ev) \<Rightarrow> (devs', Print (DeviceDisconnected (name dev)) # ev)))"

definition cleanup_stale_devices :: "env \<Rightarrow> daemon \<Rightarrow> daemon \<times> event list" where
  "cleanup_stale_devices e st =
     (let stale_devices =
            map fst (filter (\<lambda>(addr, dev). is_stale (now e) dev) (discovered_devices st))
      in case pop_stale stale_devices (discovered_devices st) of
           (devs', ev) \<Rightarrow> (st\<lparr>discovered_devices := devs'\<rparr>, ev))"

definition heartbeat_step :: "env \<Rightarrow> daemon \<Rightarrow> daemon \<times> event list" where
  "heartbeat_step e st =
     (case cleanup_stale_devices e st of
        (st', ev) \<Rightarrow> (st', broadcast st HEARTBEAT_MESSAGE @ ev))"

section \<open>The message codec\<close>

text \<open>
  The daemon has no codec of its own: each frame is built where it is sent and taken apart
  in the handler that receives it. The five kinds of message, the frame each sending place
  builds, and the parse each handler makes are collected here.
\<close>

datatype wire_message =
    Discover
  | DeviceAnnounce string string
  | ClipboardPayload string
  | Ack string
  | Heartbeat

text \<open>The frames as \<^verbatim>\<open>_respond_to_discovery\<close>, \<^verbatim>\<open>_broadcast_clipboard\<close>,
  \<^verbatim>\<open>_handle_clipboard\<close> and \<^verbatim>\<open>_heartbeat_loop\<close> build them, for any platform and
  status. The daemon never sends a discovery request; its frame is the literal the
  dispatch compares with.\<close>

fun encode :: "wire_message \<Rightarrow> string" where
  "encode Discover = DISCOVERY_MESSAGE"
| "encode (DeviceAnnounce p n) = DEVICE_PREFIX @ p @ ''|'' @ n"
| "encode (ClipboardPayload content) = CLIPBOARD_PREFIX @ b64encode content"
| "encode (Ack status) = ACK_PREFIX @ status"
| "encode Heartbeat = HEARTBEAT_MESSAGE"

datatype decoded =
    Message wire_message
  | Malformed py_error
  | Unknown

text \<open>The dispatch of \<^verbatim>\<open>_handle_message\<close> with the parse of the handler it selects.\<close>

definition decode :: "string \<Rightarrow> decoded" where
  "decode message =
     (if message = DISCOVERY_MESSAGE then Message Discover
      else if startswith message DEVICE_PREFIX then
        (let parts = split CHR ''|'' (drop (length DEVICE_PREFIX) message) in
         if length parts \<ge> 2 then Message (DeviceAnnounce (parts ! 0) (parts ! 1))
         else Unknown)
      else if startswith message CLIPBOARD_PREFIX then
        (case decode_content (drop (length CLIPBOARD_PREFIX) message) of
           Inl err \<Rightarrow> Malformed err
         | Inr content \<Rightarrow> Message (ClipboardPayload content))
      else if startswith message ACK_PREFIX then
        Message (Ack (drop (length ACK_PREFIX) message))
      else if message = HEARTBEAT_MESSAGE then Message Heartbeat
      else Unknown)"

text \<open>What the handlers do with a parsed message.\<close>

fun apply_decoded :: "env \<Rightarrow> daemon \<Rightarrow> decoded \<Rightarrow> string \<Rightarrow> daemon \<times> event list" where
  "apply_decoded e st (Message Discover) sender = respond_to_discovery e st sender"
| "apply_decoded e st (Message (DeviceAnnounce p n)) sender =
     (let dev = \<lparr>address = sender, platform = p, name = n, last_seen = now e\<rparr>
      in (st\<lparr>discovered_devices := AList.update sender dev (discovered_devices st)\<rparr>,
          [Print (DeviceDiscovered dev)]))"
| "apply_decoded e st (Message (ClipboardPayload content)) sender =
     (if content \<noteq> last_clipboard st then
        (case copy_error e of
           None \<Rightarrow>
             (st\<lparr>last_clipboard := content\<rparr>,
              [Copy content] @ send_to st (ACK_PREFIX @ ''RECEIVED'') sender
              @ [Print (Received content)])
         | Some err \<Rightarrow>
             (st\<lparr>last_clipboard := content\<rparr>,
              [Copy content] @ (if verbose st then [Print (ClipboardError err)] else [])))
      else (st, []))"
| "apply_decoded e st (Message (Ack status)) sender =
     (st, if verbose st then [Print (AckFrom sender status)] else [])"
| "apply_decoded e st (Message Heartbeat) sender = handle_heartbeat e st sender"
| "apply_decoded e st (Malformed err) sender =
     (st, if verbose st then [Print (ClipboardError err)] else [])"
| "apply_decoded e st Unknown sender = (st, [])"

section \<open>A daemon with one known peer\<close>

text \<open>A running daemon whose table holds one peer, last seen at time 0; the examples
  below start from it.\<close>

definition phone :: device where
  "phone = \<lparr>address = ''10.0.0.2'', platform = ''Android'', name = ''phone'', last_seen = 0\<rparr>"

definition paired :: daemon where
  "paired = (start (init SYNC_PORT False))\<lparr>discovered_devices := [(''10.0.0.2'', phone)]\<rparr>"

section \<open>Properties of the library functions\<close>

lemma split_not_Nil: "split sep s \<noteq> []"
  by (induction s) (auto split: list.splits)

lemma split_append_sep: "sep \<notin> set p \<Longrightarrow> split sep (p @ sep # s) = p # split sep s"
  by (induction p) auto

lemma hd_split: "hd (split sep s) = takeWhile (\<lambda>c. c \<noteq> sep) s"
  using split_not_Nil [of sep] by (induction s) (auto split: list.splits)

lemma b64_value_char: "v < 64 \<Longrightarrow> b64_value (b64_char v) = Some v"
  by (auto simp: b64_value_def b64_char_def Let_def)

lemma b64_char_not_pad: "v < 64 \<Longrightarrow> b64_char v \<noteq> CHR ''=''"
  by (auto simp: b64_char_def char_of_eq_iff take_bit_eq_mod)

lemma b64_char_ascii: "v < 64 \<Longrightarrow> (of_char (b64_char v) :: nat) < 128"
  by (auto simp: b64_char_def)

lemma a2b_step:
  "v < 64 \<Longrightarrow> a2b_base64 q l p out (b64_char v # rest) =
     (if q = 0 then a2b_base64 1 v 0 out rest
      else if q = 1 then a2b_base64 2 (v mod 16) 0 (out @ [char_of (l * 4 + v div 16)]) rest
      else if q = 2 then a2b_base64 3 (v mod 4) 0 (out @ [char_of (l * 16 + v div 4)]) rest
      else a2b_base64 0 0 0 (out @ [char_of (l * 64 + v)]) rest)"
  by (simp add: b64_value_char b64_char_not_pad)

lemma a2b_pad:
  "a2b_base64 q l p out (CHR ''='' # rest) =
     (if q \<ge> 2 \<and> q + (p + 1) \<ge> 4 then Inr out
      else a2b_base64 q l (if q \<ge> 2 then p + 1 else p) out rest)"
  by simp

lemma a2b_b64encode: "a2b_base64 0 l p out (b64encode bs) = Inr (out @ bs)"
proof (induction bs arbitrary: l p out rule: b64encode.induct)
  case 1
  show ?case by simp
next
  case (2 a)
  define x where "x = (of_char a :: nat)"
  have x: "x < 256" by (simp add: x_def)
  have a: "a = char_of x" by (simp add: x_def)
  have v1: "x div 4 < 64" and v2: "x mod 4 * 16 < 64" using x by auto
  have r: "x div 4 * 4 + x mod 4 * 16 div 16 = x" by simp
  show ?case
    unfolding b64encode.simps Let_def x_def [symmetric]
    by (simp add: a2b_step a2b_pad v1 v2 r a del: a2b_base64.simps(2))
next
  case (3 a b)
  define x where "x = (of_char a :: nat)"
  define y where "y = (of_char b :: nat)"
  have x: "x < 256" and y: "y < 256" by (simp_all add: x_def y_def)
  have a: "a = char_of x" and b: "b = char_of y" by (simp_all add: x_def y_def)
  have v1: "x div 4 < 64" and v2: "x mod 4 * 16 + y div 16 < 64" and v3: "y mod 16 * 4 < 64"
    using x y by auto
  have r1: "x div 4 * 4 + (x mod 4 * 16 + y div 16) div 16 = x"
    using y by simp
  have r2: "(x mod 4 * 16 + y div 16) mod 16 * 16 + y mod 16 * 4 div 4 = y"
    using y by simp
  have e1: "char_of (x div 4 * 4 + (x mod 4 * 16 + y div 16) div 16) = a"
    by (simp only: r1 a)
  have e2: "char_of ((x mod 4 * 16 + y div 16) mod 16 * 16 + y mod 16 * 4 div 4) = b"
    by (simp only: r2 b)
  show ?case
    unfolding b64encode.simps Let_def x_def [symmetric] y_def [symmetric]
    by (simp only: a2b_step [OF v1] a2b_step [OF v2] a2b_step [OF v3] a2b_pad e1 e2)
       simp
next
  case (4 a b c rest)
  define x where "x = (of_char a :: nat)"
  define y where "y = (of_char b :: nat)"
  define z where "z = (of_char c :: nat)"
  have x: "x < 256" and y: "y < 256" and z: "z < 256" by (simp_all add: x_def y_def z_def)
  have a: "a = char_of x" and b: "b = char_of y" and c: "c = char_of z"
    by (simp_all add: x_def y_def z_def)
  have v1: "x div 4 < 64" and v2: "x mod 4 * 16 + y div 16 < 64"
    and v3: "y mod 16 * 4 + z div 64 < 64" and v4: "z mod 64 < 64"
    using x y z by auto
  have r1: "x div 4 * 4 + (x mod 4 * 16 + y div 16) div 16 = x"
    using y by simp
  have r2: "(x mod 4 * 16 + y div 16) mod 16 * 16 + (y mod 16 * 4 + z div 64) div 4 = y"
    using y z by simp
  have r3: "(y mod 16 * 4 + z div 64) mod 4 * 64 + z mod 64 = z"
    using z by simp
  have e1: "char_of (x div 4 * 4 + (x mod 4 * 16 + y div 16) div 16) = a"
    by (simp only: r1 a)
  have e2: "char_of ((x mod 4 * 16 + y div 16) mod 16 * 16 + (y mod 16 * 4 + z div 64) div 4) = b"
    by (simp only: r2 b)
  have e3: "char_of ((y mod 16 * 4 + z div 64) mod 4 * 64 + z mod 64) = c"
    by (simp only: r3 c)
  show ?case
    unfolding b64encode.simps Let_def x_def [symmetric] y_def [symmetric] z_def [symmetric]
    by (simp only: append_Cons append_Nil a2b_step [OF v1] a2b_step [OF v2] a2b_step [OF v3]
          a2b_step [OF v4] e1 e2 e3 "4.IH")
       simp
qed

lemma b64_groups:
  fixes x y z :: nat
  assumes "x < 256" "y < 256" "z < 256"
  shows "x div 4 < 64" "x mod 4 * 16 < 64" "x mod 4 * 16 + y div 16 < 64"
    "y mod 16 * 4 < 64" "y mod 16 * 4 + z div 64 < 64" "z mod 64 < 64"
  using assms by auto

lemma b64encode_ascii: "\<forall>c \<in> set (b64encode bs). (of_char c :: nat) < 128"
proof (induction bs rule: b64encode.induct)
  case 1
  show ?case by simp
next
  case (2 a)
  have "(of_char a :: nat) < 256" by simp
  from b64_groups [OF this this this] show ?case
    by (simp add: Let_def b64_char_ascii)
next
  case (3 a b)
  have "(of_char a :: nat) < 256" "(of_char b :: nat) < 256" by simp_all
  from b64_groups [OF this this(2)] show ?case
    by (simp add: Let_def b64_char_ascii)
next
  case (4 a b c rest)
  have "(of_char a :: nat) < 256" "(of_char b :: nat) < 256" "(of_char c :: nat) < 256"
    by simp_all
  from b64_groups [OF this] 4 show ?case
    by (simp add: Let_def b64_char_ascii)
qed

lemma b64decode_b64encode: "b64decode (b64encode bs) = Inr bs"
proof -
  have "\<not> list_ex (\<lambda>c. (of_char c :: nat) \<ge> 128) (b64encode bs)"
    using b64encode_ascii [of bs] by (auto simp: list_ex_iff)
  then show ?thesis
    using a2b_b64encode [of 0 0 "[]" bs] by (simp add: b64decode_def)
qed

lemma length_b64encode: "length (b64encode bs) = 4 * ((length bs + 2) div 3)"
proof (induction bs rule: b64encode.induct)
  case (4 a b c rest)
  have "(length (a # b # c # rest) + 2) div 3 = Suc ((length rest + 2) div 3)"
    by simp
  moreover have "length (b64encode (a # b # c # rest)) = 4 + length (b64encode rest)"
    by (simp add: Let_def)
  ultimately show ?case
    using 4 by (simp only:) simp
qed (simp_all add: Let_def)

lemma decode_content_b64encode:
  "utf8_valid content \<Longrightarrow> decode_content (b64encode content) = Inr content"
  by (simp add: decode_content_def b64decode_b64encode decode_utf8_def)

section \<open>The dispatch of inbound messages\<close>

lemma startswith_append [simp]: "startswith (p @ s) p"
  by (simp add: startswith_def)

lemma startswith_common:
  assumes "startswith s p" "startswith s q"
  shows "take (min (length p) (length q)) p = take (min (length p) (length q)) q"
proof -
  have "take (min (length p) (length q)) p = take (min (length p) (length q)) (take (length p) s)"
    using assms(1) by (simp add: startswith_def)
  also have "\<dots> = take (min (length p) (length q)) (take (length q) s)"
    by (simp add: min.commute min.left_commute)
  also have "\<dots> = take (min (length p) (length q)) q"
    using assms(2) by (simp add: startswith_def)
  finally show ?thesis .
qed

lemma device_not_discovery: "startswith m DEVICE_PREFIX \<Longrightarrow> m \<noteq> DISCOVERY_MESSAGE"
  by (auto simp: startswith_def DEVICE_PREFIX_def DISCOVERY_MESSAGE_def)

lemma clipboard_not_discovery: "startswith m CLIPBOARD_PREFIX \<Longrightarrow> m \<noteq> DISCOVERY_MESSAGE"
  by (auto simp: startswith_def CLIPBOARD_PREFIX_def DISCOVERY_MESSAGE_def)

lemma ack_not_discovery: "startswith m ACK_PREFIX \<Longrightarrow> m \<noteq> DISCOVERY_MESSAGE"
  by (auto simp: startswith_def ACK_PREFIX_def DISCOVERY_MESSAGE_def)

lemma clipboard_not_device: "startswith m CLIPBOARD_PREFIX \<Longrightarrow> \<not> startswith m DEVICE_PREFIX"
  using startswith_common [of m CLIPBOARD_PREFIX DEVICE_PREFIX]
  by (auto simp: CLIPBOARD_PREFIX_def DEVICE_PREFIX_def)

lemma ack_not_device: "startswith m ACK_PREFIX \<Longrightarrow> \<not> startswith m DEVICE_PREFIX"
  using startswith_common [of m ACK_PREFIX DEVICE_PREFIX]
  by (auto simp: ACK_PREFIX_def DEVICE_PREFIX_def)

lemma ack_not_clipboard: "startswith m ACK_PREFIX \<Longrightarrow> \<not> startswith m CLIPBOARD_PREFIX"
  using startswith_common [of m ACK_PREFIX CLIPBOARD_PREFIX]
  by (auto simp: ACK_PREFIX_def CLIPBOARD_PREFIX_def)

lemma handle_message_discovery:
  "handle_message e st DISCOVERY_MESSAGE sender = respond_to_discovery e st sender"
  by (simp add: handle_message_def)

lemma handle_message_device:
  "startswith m DEVICE_PREFIX \<Longrightarrow>
   handle_message e st m sender = handle_device_response e st m sender"
  by (simp add: handle_message_def device_not_discovery)

lemma handle_message_clipboard:
  "startswith m CLIPBOARD_PREFIX \<Longrightarrow>
   handle_message e st m sender = handle_clipboard e st m sender"
  by (simp add: handle_message_def clipboard_not_discovery clipboard_not_device)

lemma handle_message_ack:
  "startswith m ACK_PREFIX \<Longrightarrow> handle_message e st m sender = handle_ack st m sender"
  by (simp add: handle_message_def ack_not_discovery ack_not_device ack_not_clipboard)

lemma handle_message_heartbeat:
  "handle_message e st HEARTBEAT_MESSAGE sender = handle_heartbeat e st sender"
  by (simp add: handle_message_def startswith_def HEARTBEAT_MESSAGE_def DISCOVERY_MESSAGE_def
      DEVICE_PREFIX_def CLIPBOARD_PREFIX_def ACK_PREFIX_def)

lemma handle_message_decode:
  "handle_message e st m sender = apply_decoded e st (decode m) sender"
  by (auto simp: handle_message_def decode_def handle_device_response_def handle_clipboard_def
      handle_ack_def Let_def split: sum.splits option.splits)

section \<open>The clipboard monitor, heartbeats and clean-up\<close>

lemma clipboard_monitor_loop_stopped:
  "\<not> running st \<Longrightarrow> clipboard_monitor_loop st polls = (st, [])"
  by (cases polls) auto

text \<open>
  C10. A poll that reads the empty string sends nothing and leaves the daemon, and so the
  snapshot, as it was, whatever the snapshot holds; the monitor loop goes on with the next
  poll from the same state.
\<close>

theorem empty_text_not_propagated:
  "clipboard_monitor_step st (Inr []) = (st, [])
   \<and> clipboard_monitor_loop st (Inr [] # polls) = clipboard_monitor_loop st polls"
  by (cases "running st")
     (simp_all add: clipboard_monitor_step_def clipboard_monitor_loop_stopped)

theorem empty_text_not_propagated_witness:
  "clipboard_monitor_step ((start (init SYNC_PORT True))\<lparr>last_clipboard := ''old text''\<rparr>)
     (Inr [])
   = ((start (init SYNC_PORT True))\<lparr>last_clipboard := ''old text''\<rparr>, [])
   \<and> clipboard_monitor_loop ((start (init SYNC_PORT True))\<lparr>last_clipboard := ''old text''\<rparr>)
       [Inr [], Inr ''old text'', Inr []]
   = ((start (init SYNC_PORT True))\<lparr>last_clipboard := ''old text''\<rparr>, [])"
proof -
  have "clipboard_monitor_loop ((start (init SYNC_PORT True))\<lparr>last_clipboard := ''old text''\<rparr>)
       [Inr ''old text'', Inr []]
   = ((start (init SYNC_PORT True))\<lparr>last_clipboard := ''old text''\<rparr>, [])"
    by (simp add: clipboard_monitor_step_def start_def init_def)
  with empty_text_not_propagated
    [of "(start (init SYNC_PORT True))\<lparr>last_clipboard := ''old text''\<rparr>"
        "[Inr ''old text'', Inr []]"]
  show ?thesis
    by simp
qed

text \<open>
  C7. A heartbeat from an address that is not in the peer table leaves the daemon, and so
  the whole table, unchanged: no entry is created and none is modified.
\<close>

theorem silent_heartbeat:
  assumes "sender \<notin> fst ` set (discovered_devices st)"
  shows "handle_message e st HEARTBEAT_MESSAGE sender = (st, [])"
proof -
  have "map_of (discovered_devices st) sender = None"
    using assms by (simp add: map_of_eq_None_iff)
  then show ?thesis
    by (simp add: handle_message_heartbeat handle_heartbeat_def)
qed

theorem silent_heartbeat_witness:
  "''10.0.0.9'' \<notin> fst ` set (discovered_devices paired)
   \<and> handle_message \<lparr>now = 50, node = ''host'', copy_error = None\<rparr> paired HEARTBEAT_MESSAGE ''10.0.0.9''
     = (paired, [])"
proof -
  have h: "''10.0.0.9'' \<notin> fst ` set (discovered_devices paired)"
    by (simp add: paired_def)
  from silent_heartbeat [OF h] h show ?thesis
    by simp
qed

text \<open>
  C5. Of two consecutive polls that read the same text, the second sends nothing and
  changes nothing. The first updates the snapshot and broadcasts the clipboard frame of the
  text when the text is not empty and differs from the snapshot, and does nothing
  otherwise.
\<close>

theorem dedup_broadcast:
  assumes "clipboard_monitor_step st (Inr t) = (st1, ev1)"
  shows "clipboard_monitor_step st1 (Inr t) = (st1, [])
    \<and> (t \<noteq> [] \<and> t \<noteq> last_clipboard st \<longrightarrow>
         st1 = st\<lparr>last_clipboard := t\<rparr>
         \<and> ev1 = [SendTo (encode (ClipboardPayload t)) BROADCAST_ADDRESS (port st),
                  Print (Sent t)])
    \<and> (t = [] \<or> t = last_clipboard st \<longrightarrow> st1 = st \<and> ev1 = [])"
  using assms
  by (auto simp: clipboard_monitor_step_def broadcast_clipboard_def broadcast_def Let_def
      split: if_splits)

theorem dedup_broadcast_witness:
  "clipboard_monitor_step (start (init SYNC_PORT False)) (Inr ''hello'')
     = ((start (init SYNC_PORT False))\<lparr>last_clipboard := ''hello''\<rparr>,
        [SendTo ''NEXUSCLIP_CLIP:aGVsbG8='' ''255.255.255.255'' 4040, Print (Sent ''hello'')])
   \<and> clipboard_monitor_step ((start (init SYNC_PORT False))\<lparr>last_clipboard := ''hello''\<rparr>)
       (Inr ''hello'')
     = ((start (init SYNC_PORT False))\<lparr>last_clipboard := ''hello''\<rparr>, [])"
proof -
  have h: "clipboard_monitor_step (start (init SYNC_PORT False)) (Inr ''hello'')
     = ((start (init SYNC_PORT False))\<lparr>last_clipboard := ''hello''\<rparr>,
        [SendTo ''NEXUSCLIP_CLIP:aGVsbG8='' ''255.255.255.255'' 4040, Print (Sent ''hello'')])"
    by (simp add: clipboard_monitor_step_def broadcast_clipboard_def broadcast_def start_def
        init_def SYNC_PORT_def CLIPBOARD_PREFIX_def BROADCAST_ADDRESS_def b64_char_def Let_def
        char_of_eq_iff)
  from dedup_broadcast [OF h] h show ?thesis by simp
qed

lemma pop_stale_eq:
  assumes "distinct (map fst devs)" "distinct addrs" "set addrs \<subseteq> fst ` set devs"
  shows "pop_stale addrs devs =
    (filter (\<lambda>(a, d). a \<notin> set addrs) devs,
     map (\<lambda>a. Print (DeviceDisconnected (name (the (map_of devs a))))) addrs)"
  using assms
proof (induction addrs arbitrary: devs)
  case Nil
  then show ?case by simp
next
  case (Cons a addrs)
  from Cons.prems obtain d where d: "map_of devs a = Some d"
    by (cases "map_of devs a") (auto simp: map_of_eq_None_iff)
  have 1: "distinct (map fst (AList.delete a devs))"
    using Cons.prems(1) by (rule AList.distinct_delete)
  have 2: "distinct addrs" and na: "a \<notin> set addrs"
    using Cons.prems(2) by auto
  have 3: "set addrs \<subseteq> fst ` set (AList.delete a devs)"
  proof
    fix x assume x: "x \<in> set addrs"
    with na have "x \<noteq> a" by auto
    moreover from x Cons.prems(3) have "x \<in> set (map fst devs)" by auto
    ultimately have "x \<in> set (map fst (AList.delete a devs))"
      by (simp only: AList.delete_keys) simp
    then show "x \<in> fst ` set (AList.delete a devs)" by simp
  qed
  have f: "filter (\<lambda>(a', d). a' \<notin> set addrs) (AList.delete a devs)
         = filter (\<lambda>(a', d). a' \<notin> set (a # addrs)) devs"
    by (auto simp: AList.delete_eq intro: filter_cong)
  have m: "map (\<lambda>a'. Print (DeviceDisconnected (name (the (map_of (AList.delete a devs) a'))))) addrs
         = map (\<lambda>a'. Print (DeviceDisconnected (name (the (map_of devs a'))))) addrs"
    using na by (auto simp: AList.delete_conv)
  show ?case
    using Cons.IH [OF 1 2 3] d f m by simp
qed

text \<open>
  C6. The clean-up removes exactly the peers whose \<open>now - last_seen\<close> exceeds 120, keeps
  every other peer in place, and prints one "disconnected" line for each peer removed, in
  the order of the table.
\<close>

theorem stale_eviction:
  assumes "distinct (map fst (discovered_devices st))"
  shows "cleanup_stale_devices e st =
    (st\<lparr>discovered_devices :=
          filter (\<lambda>(addr, dev). \<not> now e - last_seen dev > 120) (discovered_devices st)\<rparr>,
     map (\<lambda>(addr, dev). Print (DeviceDisconnected (name dev)))
         (filter (\<lambda>(addr, dev). now e - last_seen dev > 120) (discovered_devices st)))"
proof -
  let ?devs = "discovered_devices st"
  let ?stale = "\<lambda>(addr, dev). is_stale (now e) dev"
  let ?addrs = "map fst (filter ?stale ?devs)"
  have st: "?stale = (\<lambda>(addr, dev). now e - last_seen dev > 120)"
    by (simp add: is_stale_def stale_timeout_def)
  have d: "distinct ?addrs"
    using assms by (simp add: distinct_map_filter)
  have s: "set ?addrs \<subseteq> fst ` set ?devs"
    by auto
  have mo: "map_of ?devs a = Some dev" if "(a, dev) \<in> set ?devs" for a dev
    using assms that by simp
  have uniq: "dev' = dev" if "(a, dev) \<in> set ?devs" "(a, dev') \<in> set ?devs" for a dev dev'
    using mo [OF that(1)] mo [OF that(2)] by simp
  have f: "filter (\<lambda>(a, d). a \<notin> set ?addrs) ?devs = filter (\<lambda>p. \<not> ?stale p) ?devs"
  proof (rule filter_cong)
    fix p assume p: "p \<in> set ?devs"
    obtain a dev where [simp]: "p = (a, dev)" by (cases p)
    have "a \<in> set ?addrs \<longleftrightarrow> is_stale (now e) dev"
    proof
      assume "a \<in> set ?addrs"
      then obtain dev' where "(a, dev') \<in> set ?devs" "is_stale (now e) dev'" by auto
      with uniq [of a dev dev'] p show "is_stale (now e) dev" by simp
    next
      assume "is_stale (now e) dev"
      with p show "a \<in> set ?addrs" by force
    qed
    then show "(case p of (a, d) \<Rightarrow> a \<notin> set ?addrs) = (\<not> ?stale p)" by simp
  qed simp
  have m: "map (\<lambda>a. Print (DeviceDisconnected (name (the (map_of ?devs a))))) ?addrs
         = map (\<lambda>(addr, dev). Print (DeviceDisconnected (name dev))) (filter ?stale ?devs)"
    by (auto simp: mo)
  have "pop_stale ?addrs ?devs =
      (filter (\<lambda>p. \<not> ?stale p) ?devs,
       map (\<lambda>(addr, dev). Print (DeviceDisconnected (name dev))) (filter ?stale ?devs))"
    using pop_stale_eq [OF assms d s] f m by simp
  then show ?thesis
    unfolding cleanup_stale_devices_def Let_def st
    by (simp add: case_prod_unfold)
qed

theorem stale_eviction_witness:
  "cleanup_stale_devices \<lparr>now = 121, node = ''host'', copy_error = None\<rparr>
     ((start (init SYNC_PORT False))\<lparr>discovered_devices :=
        [(''10.0.0.2'', \<lparr>address = ''10.0.0.2'', platform = ''Android'', name = ''phone'',
                          last_seen = 0\<rparr>),
         (''10.0.0.3'', \<lparr>address = ''10.0.0.3'', platform = ''Linux'', name = ''laptop'',
                          last_seen = 1\<rparr>)]\<rparr>)
   = ((start (init SYNC_PORT False))\<lparr>discovered_devices :=
        [(''10.0.0.3'', \<lparr>address = ''10.0.0.3'', platform = ''Linux'', name = ''laptop'',
                          last_seen = 1\<rparr>)]\<rparr>,
      [Print (DeviceDisconnected ''phone'')])"
proof -
  let ?st = "(start (init SYNC_PORT False))\<lparr>discovered_devices :=
        [(''10.0.0.2'', \<lparr>address = ''10.0.0.2'', platform = ''Android'', name = ''phone'',
                          last_seen = 0\<rparr>),
         (''10.0.0.3'', \<lparr>address = ''10.0.0.3'', platform = ''Linux'', name = ''laptop'',
                          last_seen = 1\<rparr>)]\<rparr>"
  have h: "distinct (map fst (discovered_devices ?st))"
    by simp
  from stale_eviction [OF h, of "\<lparr>now = 121, node = ''host'', copy_error = None\<rparr>"] show ?thesis
    by simp
qed

section \<open>Inbound clipboard frames\<close>

lemma handle_clipboard_decoded:
  assumes "decode_content (drop (length CLIPBOARD_PREFIX) m) = Inr t"
  shows "handle_clipboard e st m sender =
    (if t \<noteq> last_clipboard st then
       (st\<lparr>last_clipboard := t\<rparr>,
        case copy_error e of
          None \<Rightarrow>
            [Copy t, SendTo (ACK_PREFIX @ ''RECEIVED'') sender (port st), Print (Received t)]
        | Some err \<Rightarrow> Copy t # (if verbose st then [Print (ClipboardError err)] else []))
     else (st, []))"
  using assms by (simp add: handle_clipboard_def send_to_def split: option.splits)

lemma handle_clipboard_failed:
  assumes "decode_content (drop (length CLIPBOARD_PREFIX) m) = Inl err"
  shows "handle_clipboard e st m sender =
    (st, if verbose st then [Print (ClipboardError err)] else [])"
  using assms by (simp add: handle_clipboard_def)

lemma listen_loop_stopped: "\<not> running st \<Longrightarrow> listen_loop st inputs = (st, [])"
  by (cases inputs) auto

text \<open>
  C2. The claim fails when the clipboard write raises: the snapshot is already set, the
  acknowledgment is skipped, and the second handling of the frame finds the text in the
  snapshot and drops it. The two handlings of the frame of \<^verbatim>\<open>hello\<close> then send no
  acknowledgment at all.
\<close>

theorem idempotent_apply_counterexample:
  "handle_message \<lparr>now = 10, node = ''host'', copy_error = Some PyperclipException\<rparr>
       (start (init SYNC_PORT False)) ''NEXUSCLIP_CLIP:aGVsbG8='' ''10.0.0.2'' =
      ((start (init SYNC_PORT False))\<lparr>last_clipboard := ''hello''\<rparr>, [Copy ''hello''])
    \<and> handle_message \<lparr>now = 11, node = ''host'', copy_error = None\<rparr>
         ((start (init SYNC_PORT False))\<lparr>last_clipboard := ''hello''\<rparr>)
         ''NEXUSCLIP_CLIP:aGVsbG8='' ''10.0.0.2'' =
      ((start (init SYNC_PORT False))\<lparr>last_clipboard := ''hello''\<rparr>, [])"
proof -
  have p: "startswith ''NEXUSCLIP_CLIP:aGVsbG8='' CLIPBOARD_PREFIX"
    by (simp add: startswith_def CLIPBOARD_PREFIX_def)
  have d: "decode_content (drop (length CLIPBOARD_PREFIX) ''NEXUSCLIP_CLIP:aGVsbG8='')
      = Inr ''hello''"
    by (simp add: CLIPBOARD_PREFIX_def decode_content_def b64decode_def b64_value_def
        decode_utf8_def byte_in_def char_of_eq_iff)
  show ?thesis
    by (simp only: handle_message_clipboard [OF p] handle_clipboard_decoded [OF d])
       (simp add: start_def init_def)
qed

text \<open>
  C2, as the code has it. For every clipboard text that differs from the snapshot, the
  first handling of its clipboard frame sets the snapshot and calls the clipboard write
  once. When the write returns, one acknowledgment is sent to the sender and the
  "received" line is printed; when the write raises, no acknowledgment is sent and at most
  the error line is printed. The second handling of the same frame, whatever the write
  would do, changes nothing and sends nothing. Two handlings in a row so make one
  clipboard write and one acknowledgment when the write returns, and one clipboard write
  and no acknowledgment when it raises.
\<close>

theorem idempotent_apply:
  assumes "utf8_valid t" and "t \<noteq> last_clipboard st"
  shows "handle_message e st (encode (ClipboardPayload t)) sender =
      (st\<lparr>last_clipboard := t\<rparr>,
       case copy_error e of
         None \<Rightarrow>
           [Copy t, SendTo (encode (Ack ''RECEIVED'')) sender (port st), Print (Received t)]
       | Some err \<Rightarrow> Copy t # (if verbose st then [Print (ClipboardError err)] else []))
    \<and> handle_message e' (st\<lparr>last_clipboard := t\<rparr>) (encode (ClipboardPayload t)) sender =
      (st\<lparr>last_clipboard := t\<rparr>, [])"
proof -
  let ?m = "encode (ClipboardPayload t)"
  have p: "startswith ?m CLIPBOARD_PREFIX"
    by simp
  have d: "decode_content (drop (length CLIPBOARD_PREFIX) ?m) = Inr t"
    using assms(1) by (simp add: decode_content_b64encode)
  show ?thesis
    using assms(2)
    by (simp only: handle_message_clipboard [OF p] handle_clipboard_decoded [OF d])
       (simp split: option.splits)
qed

theorem idempotent_apply_witness:
  "handle_message \<lparr>now = 10, node = ''host'', copy_error = None\<rparr> (start (init SYNC_PORT False))
       ''NEXUSCLIP_CLIP:aGVsbG8='' ''10.0.0.2'' =
      ((start (init SYNC_PORT False))\<lparr>last_clipboard := ''hello''\<rparr>,
       [Copy ''hello'', SendTo ''NEXUSCLIP_ACK:RECEIVED'' ''10.0.0.2'' 4040,
        Print (Received ''hello'')])
    \<and> handle_message \<lparr>now = 11, node = ''host'', copy_error = None\<rparr>
         ((start (init SYNC_PORT False))\<lparr>last_clipboard := ''hello''\<rparr>)
         ''NEXUSCLIP_CLIP:aGVsbG8='' ''10.0.0.2'' =
      ((start (init SYNC_PORT False))\<lparr>last_clipboard := ''hello''\<rparr>, [])
    \<and> handle_message \<lparr>now = 10, node = ''host'', copy_error = Some PyperclipException\<rparr>
         (start (init SYNC_PORT True)) ''NEXUSCLIP_CLIP:aGVsbG8='' ''10.0.0.2'' =
      ((start (init SYNC_PORT True))\<lparr>last_clipboard := ''hello''\<rparr>,
       [Copy ''hello'', Print (ClipboardError PyperclipException)])"
proof -
  have v: "utf8_valid ''hello''"
    by (simp add: byte_in_def)
  have n: "''hello'' \<noteq> last_clipboard (start (init SYNC_PORT False))"
    and n': "''hello'' \<noteq> last_clipboard (start (init SYNC_PORT True))"
    by (simp_all add: start_def init_def)
  have f: "encode (ClipboardPayload ''hello'') = ''NEXUSCLIP_CLIP:aGVsbG8=''"
    by (simp add: CLIPBOARD_PREFIX_def b64_char_def char_of_eq_iff)
  have a: "encode (Ack ''RECEIVED'') = ''NEXUSCLIP_ACK:RECEIVED''"
    by (simp add: ACK_PREFIX_def)
  have p: "port (start (init SYNC_PORT False)) = 4040"
    and q: "verbose (start (init SYNC_PORT True))"
    by (simp_all add: start_def init_def SYNC_PORT_def)
  from idempotent_apply [OF v n, of "\<lparr>now = 10, node = ''host'', copy_error = None\<rparr>"
      "''10.0.0.2''" "\<lparr>now = 11, node = ''host'', copy_error = None\<rparr>"]
    idempotent_apply [OF v n',
      of "\<lparr>now = 10, node = ''host'', copy_error = Some PyperclipException\<rparr>" "''10.0.0.2''"
      "\<lparr>now = 11, node = ''host'', copy_error = None\<rparr>"]
  show ?thesis
    using q by (simp only: f a p) simp
qed

text \<open>
  The decoder skips every character outside the alphabet, so a remainder that is not
  base64 text can still decode: \<^verbatim>\<open>!aGk=\<close> decodes to \<^verbatim>\<open>hi\<close>, and \<^verbatim>\<open>!!!!\<close> to the empty
  text.
\<close>

lemma b64decode_skips:
  "b64decode ''!aGk='' = Inr ''hi''" "b64decode ''!!!!'' = Inr []"
  by (simp_all add: b64decode_def b64_value_def char_of_eq_iff)

text \<open>
  C3. The claim fails for a remainder that is not base64 text but that the decoder
  accepts: \<^verbatim>\<open>!\<close> is not in the alphabet, and the frame \<^verbatim>\<open>NEXUSCLIP_CLIP:!aGk=\<close> is applied
  like the frame of \<^verbatim>\<open>hi\<close>, with a clipboard write and an acknowledgment.
\<close>

theorem malformed_payload_safety_counterexample:
  "b64_value CHR ''!'' = None
   \<and> handle_message \<lparr>now = 50, node = ''host'', copy_error = None\<rparr> paired ''NEXUSCLIP_CLIP:!aGk='' ''10.0.0.2''
     = (paired\<lparr>last_clipboard := ''hi''\<rparr>,
        [Copy ''hi'', SendTo ''NEXUSCLIP_ACK:RECEIVED'' ''10.0.0.2'' 4040,
         Print (Received ''hi'')])"
proof -
  have p: "startswith ''NEXUSCLIP_CLIP:!aGk='' CLIPBOARD_PREFIX"
    by (simp add: startswith_def CLIPBOARD_PREFIX_def)
  have d: "decode_content (drop (length CLIPBOARD_PREFIX) ''NEXUSCLIP_CLIP:!aGk='') = Inr ''hi''"
    by (simp add: CLIPBOARD_PREFIX_def decode_content_def b64decode_skips decode_utf8_def
        byte_in_def)
  have "b64_value CHR ''!'' = None"
    by (simp add: b64_value_def)
  then show ?thesis
    by (simp only: handle_message_clipboard [OF p] handle_clipboard_decoded [OF d])
       (simp add: paired_def start_def init_def SYNC_PORT_def ACK_PREFIX_def)
qed

text \<open>
  C3, as the code has it. A frame with the clipboard prefix whose remainder the base64
  decoder rejects (a character that is not ASCII, or an unfinished group of four), or
  whose decoded bytes are not UTF-8, leaves the daemon unchanged, snapshot and peer table
  included, writes no clipboard and sends nothing: at most an error line is printed, when
  the daemon is verbose. The receive loop goes on with the next datagram.
\<close>

theorem malformed_payload_safety:
  assumes "startswith m CLIPBOARD_PREFIX"
    and "b64decode (drop (length CLIPBOARD_PREFIX) m) = Inl err
         \<or> (\<exists>bytes. b64decode (drop (length CLIPBOARD_PREFIX) m) = Inr bytes
               \<and> \<not> utf8_valid bytes \<and> err = UnicodeDecodeError)"
  shows "handle_message e st m sender =
      (st, if verbose st then [Print (ClipboardError err)] else [])
    \<and> listen_loop st ((e, Datagram m sender) # rest) =
      (case listen_loop st rest of
         (st', ev) \<Rightarrow>
           (st', (if running st \<and> verbose st
                  then [Print (if utf8_valid m then ClipboardError err
                               else ListenError UnicodeDecodeError)]
                  else []) @ ev))"
proof -
  have d: "decode_content (drop (length CLIPBOARD_PREFIX) m) = Inl err"
    using assms(2) by (auto simp: decode_content_def decode_utf8_def)
  have h: "handle_message e st m sender =
      (st, if verbose st then [Print (ClipboardError err)] else [])"
    by (simp only: handle_message_clipboard [OF assms(1)] handle_clipboard_failed [OF d])
  have s: "listen_step e st (Datagram m sender) =
      (st, if verbose st
           then [Print (if utf8_valid m then ClipboardError err
                        else ListenError UnicodeDecodeError)]
           else [])" if "running st"
    using that h by (simp add: listen_step_def decode_utf8_def)
  show ?thesis
  proof (cases "running st")
    case True
    then show ?thesis
      using h s by (simp split: prod.splits)
  next
    case False
    then show ?thesis
      using h by (simp add: listen_loop_stopped)
  qed
qed

theorem malformed_payload_safety_witness:
  "startswith ''NEXUSCLIP_CLIP:abc'' CLIPBOARD_PREFIX
   \<and> b64decode (drop (length CLIPBOARD_PREFIX) ''NEXUSCLIP_CLIP:abc'') = Inl BinasciiError
   \<and> handle_message \<lparr>now = 10, node = ''host'', copy_error = None\<rparr> (start (init SYNC_PORT True))
        ''NEXUSCLIP_CLIP:abc'' ''10.0.0.2''
      = (start (init SYNC_PORT True), [Print (ClipboardError BinasciiError)])
   \<and> listen_loop (start (init SYNC_PORT True))
        [(\<lparr>now = 10, node = ''host'', copy_error = None\<rparr>, Datagram ''NEXUSCLIP_CLIP:abc'' ''10.0.0.2''),
         (\<lparr>now = 11, node = ''host'', copy_error = None\<rparr>, Datagram ''NEXUSCLIP_CLIP:aGk='' ''10.0.0.2'')]
      = ((start (init SYNC_PORT True))\<lparr>last_clipboard := ''hi''\<rparr>,
         [Print (ClipboardError BinasciiError), Copy ''hi'',
          SendTo ''NEXUSCLIP_ACK:RECEIVED'' ''10.0.0.2'' 4040, Print (Received ''hi'')])"
proof -
  have p: "startswith ''NEXUSCLIP_CLIP:abc'' CLIPBOARD_PREFIX"
    by (simp add: startswith_def CLIPBOARD_PREFIX_def)
  have b: "b64decode (drop (length CLIPBOARD_PREFIX) ''NEXUSCLIP_CLIP:abc'') = Inl BinasciiError"
    by (simp add: CLIPBOARD_PREFIX_def b64decode_def b64_value_def)
  have r: "listen_loop (start (init SYNC_PORT True))
        [(\<lparr>now = 11, node = ''host'', copy_error = None\<rparr>, Datagram ''NEXUSCLIP_CLIP:aGk='' ''10.0.0.2'')]
      = ((start (init SYNC_PORT True))\<lparr>last_clipboard := ''hi''\<rparr>,
         [Copy ''hi'', SendTo ''NEXUSCLIP_ACK:RECEIVED'' ''10.0.0.2'' 4040,
          Print (Received ''hi'')])"
    by (simp add: listen_step_def decode_utf8_def byte_in_def handle_message_def
        handle_clipboard_def decode_content_def b64decode_def b64_value_def send_to_def
        startswith_def start_def init_def SYNC_PORT_def CLIPBOARD_PREFIX_def ACK_PREFIX_def
        DEVICE_PREFIX_def DISCOVERY_MESSAGE_def char_of_eq_iff)
  have v: "utf8_valid ''NEXUSCLIP_CLIP:abc''"
    by (simp add: byte_in_def)
  have s: "running (start (init SYNC_PORT True)) \<and> verbose (start (init SYNC_PORT True))"
    by (simp add: start_def init_def)
  from malformed_payload_safety [OF p disjI1 [OF b], of "\<lparr>now = 10, node = ''host'', copy_error = None\<rparr>"
      "start (init SYNC_PORT True)" "''10.0.0.2''"
      "[(\<lparr>now = 11, node = ''host'', copy_error = None\<rparr>, Datagram ''NEXUSCLIP_CLIP:aGk='' ''10.0.0.2'')]"]
  show ?thesis
    using p b by (simp only: r v s) simp
qed

section \<open>The codec: encoding and decoding\<close>

lemma split_announce:
  assumes "CHR ''|'' \<notin> set p"
  shows "length (split CHR ''|'' (p @ ''|'' @ n)) \<ge> 2"
    and "split CHR ''|'' (p @ ''|'' @ n) ! 0 = p"
    and "split CHR ''|'' (p @ ''|'' @ n) ! 1 = takeWhile (\<lambda>c. c \<noteq> CHR ''|'') n"
proof -
  have s: "split CHR ''|'' (p @ ''|'' @ n) = p # split CHR ''|'' n"
    using split_append_sep [OF assms] by simp
  obtain f fs where f: "split CHR ''|'' n = f # fs"
    using split_not_Nil [of "CHR ''|''" n] by (cases "split CHR ''|'' n") auto
  have "f = takeWhile (\<lambda>c. c \<noteq> CHR ''|'') n"
    using hd_split [of "CHR ''|''" n] f by simp
  with s f show "length (split CHR ''|'' (p @ ''|'' @ n)) \<ge> 2"
    and "split CHR ''|'' (p @ ''|'' @ n) ! 0 = p"
    and "split CHR ''|'' (p @ ''|'' @ n) ! 1 = takeWhile (\<lambda>c. c \<noteq> CHR ''|'') n"
    by simp_all
qed

lemma decode_announce:
  assumes "CHR ''|'' \<notin> set p"
  shows "decode (encode (DeviceAnnounce p n)) =
    Message (DeviceAnnounce p (takeWhile (\<lambda>c. c \<noteq> CHR ''|'') n))"
proof -
  have "startswith (encode (DeviceAnnounce p n)) DEVICE_PREFIX"
    by simp
  moreover have "drop (length DEVICE_PREFIX) (encode (DeviceAnnounce p n)) = p @ ''|'' @ n"
    by simp
  ultimately show ?thesis
    using split_announce [OF assms, of n]
    by (simp add: decode_def device_not_discovery Let_def del: encode.simps)
qed

lemma decode_clipboard:
  assumes "utf8_valid t"
  shows "decode (encode (ClipboardPayload t)) = Message (ClipboardPayload t)"
proof -
  have p: "startswith (encode (ClipboardPayload t)) CLIPBOARD_PREFIX"
    by simp
  have "drop (length CLIPBOARD_PREFIX) (encode (ClipboardPayload t)) = b64encode t"
    by simp
  then show ?thesis
    using assms clipboard_not_discovery [OF p] clipboard_not_device [OF p] p
    by (simp add: decode_def decode_content_b64encode del: encode.simps)
qed

lemma decode_ack: "decode (encode (Ack s)) = Message (Ack s)"
proof -
  have p: "startswith (encode (Ack s)) ACK_PREFIX"
    by simp
  have "drop (length ACK_PREFIX) (encode (Ack s)) = s"
    by simp
  then show ?thesis
    using ack_not_discovery [OF p] ack_not_device [OF p] ack_not_clipboard [OF p] p
    by (simp add: decode_def del: encode.simps)
qed

lemma decode_discover: "decode (encode Discover) = Message Discover"
  by (simp add: decode_def)

lemma decode_heartbeat: "decode (encode Heartbeat) = Message Heartbeat"
  by (simp add: decode_def startswith_def HEARTBEAT_MESSAGE_def DISCOVERY_MESSAGE_def
      DEVICE_PREFIX_def CLIPBOARD_PREFIX_def ACK_PREFIX_def)

text \<open>
  C1. The claim fails for a device name that contains \<^verbatim>\<open>|\<close>: the handler splits at every
  \<^verbatim>\<open>|\<close> and takes the second field, so the name \<^verbatim>\<open>my|host\<close> comes back as \<^verbatim>\<open>my\<close>.
\<close>

theorem codec_round_trip_counterexample:
  "decode (encode (DeviceAnnounce ''Linux'' ''my|host'')) = Message (DeviceAnnounce ''Linux'' ''my'')
   \<and> decode (encode (DeviceAnnounce ''Linux'' ''my|host''))
       \<noteq> Message (DeviceAnnounce ''Linux'' ''my|host'')"
  by (simp add: decode_def startswith_def DEVICE_PREFIX_def DISCOVERY_MESSAGE_def)

text \<open>
  C1, as the code has it. Decoding the encoded frame gives the message back for a discovery
  request, a heartbeat, an acknowledgment of any status, a clipboard payload of any text,
  and a device announcement whose platform and name contain no \<^verbatim>\<open>|\<close>. For a device
  announcement whose name contains \<^verbatim>\<open>|\<close> the platform comes back and the name comes
  back cut before its first \<^verbatim>\<open>|\<close>.
\<close>

theorem codec_round_trip:
  "decode (encode Discover) = Message Discover
   \<and> decode (encode Heartbeat) = Message Heartbeat
   \<and> decode (encode (Ack s)) = Message (Ack s)
   \<and> (utf8_valid t \<longrightarrow> decode (encode (ClipboardPayload t)) = Message (ClipboardPayload t))
   \<and> (CHR ''|'' \<notin> set p \<and> CHR ''|'' \<notin> set n \<longrightarrow>
        decode (encode (DeviceAnnounce p n)) = Message (DeviceAnnounce p n))
   \<and> (CHR ''|'' \<notin> set p \<longrightarrow>
        decode (encode (DeviceAnnounce p n)) =
          Message (DeviceAnnounce p (takeWhile (\<lambda>c. c \<noteq> CHR ''|'') n)))"
proof -
  have "takeWhile (\<lambda>c. c \<noteq> CHR ''|'') n = n" if "CHR ''|'' \<notin> set n"
    using that by (auto simp: takeWhile_eq_all_conv)
  then show ?thesis
    using decode_discover decode_heartbeat decode_ack [of s] decode_clipboard [of t]
      decode_announce [of p n]
    by (simp del: encode.simps) 
qed

theorem codec_round_trip_witness:
  "decode (encode (ClipboardPayload ''hello'')) = Message (ClipboardPayload ''hello'')
   \<and> decode (encode (DeviceAnnounce ''Linux'' ''hostB'')) = Message (DeviceAnnounce ''Linux'' ''hostB'')
   \<and> decode (encode (DeviceAnnounce ''Linux'' ''my|host'')) = Message (DeviceAnnounce ''Linux'' ''my'')
   \<and> decode (encode (Ack ''RECEIVED'')) = Message (Ack ''RECEIVED'')"
proof -
  have v: "utf8_valid ''hello''"
    by (simp add: byte_in_def)
  have p: "CHR ''|'' \<notin> set ''Linux''" and n: "CHR ''|'' \<notin> set ''hostB''"
    by simp_all
  from codec_round_trip [of "''RECEIVED''" "''hello''" "''Linux''" "''hostB''"]
    codec_round_trip [of "''RECEIVED''" "''hello''" "''Linux''" "''my|host''"] v p n
  show ?thesis
    by (simp del: encode.simps)
qed

section \<open>The peer table under inbound messages\<close>

lemma handle_announce:
  assumes "CHR ''|'' \<notin> set p"
  shows "handle_message e st (encode (DeviceAnnounce p n)) sender =
    (st\<lparr>discovered_devices :=
          AList.update sender
            \<lparr>address = sender, platform = p, name = takeWhile (\<lambda>c. c \<noteq> CHR ''|'') n,
             last_seen = now e\<rparr>
            (discovered_devices st)\<rparr>,
     [Print (DeviceDiscovered
        \<lparr>address = sender, platform = p, name = takeWhile (\<lambda>c. c \<noteq> CHR ''|'') n,
         last_seen = now e\<rparr>)])"
  by (simp only: handle_message_decode decode_announce [OF assms] apply_decoded.simps Let_def)

lemma handle_known_heartbeat:
  assumes "map_of (discovered_devices st) sender = Some dev"
  shows "handle_message e st (encode Heartbeat) sender =
    (st\<lparr>discovered_devices :=
          AList.update sender (dev\<lparr>last_seen := now e\<rparr>) (discovered_devices st)\<rparr>, [])"
  using assms by (simp add: handle_message_heartbeat handle_heartbeat_def)

lemma table_kept_discover:
  "discovered_devices (fst (handle_message e st (encode Discover) sender)) = discovered_devices st"
  by (simp add: handle_message_discovery respond_to_discovery_def Let_def)

lemma table_kept_clipboard:
  assumes "startswith m CLIPBOARD_PREFIX"
  shows "discovered_devices (fst (handle_message e st m sender)) = discovered_devices st"
  by (simp add: handle_message_clipboard [OF assms] handle_clipboard_def
      split: sum.splits option.splits)

lemma table_kept_ack:
  assumes "startswith m ACK_PREFIX"
  shows "discovered_devices (fst (handle_message e st m sender)) = discovered_devices st"
  by (simp add: handle_message_ack [OF assms] handle_ack_def Let_def)

text \<open>
  C4. The claim fails for three of the five kinds: an acknowledgment, a clipboard frame and
  a discovery request from a known peer, handled at time 50, leave its \<open>last_seen\<close> at 0.
\<close>

theorem last_seen_any_message_counterexample:
  "map_of (discovered_devices paired) ''10.0.0.2'' = Some phone
   \<and> last_seen phone = 0
   \<and> map_of (discovered_devices (fst (handle_message \<lparr>now = 50, node = ''host'', copy_error = None\<rparr> paired
         ''NEXUSCLIP_ACK:RECEIVED'' ''10.0.0.2''))) ''10.0.0.2'' = Some phone
   \<and> map_of (discovered_devices (fst (handle_message \<lparr>now = 50, node = ''host'', copy_error = None\<rparr> paired
         ''NEXUSCLIP_CLIP:aGk='' ''10.0.0.2''))) ''10.0.0.2'' = Some phone
   \<and> map_of (discovered_devices (fst (handle_message \<lparr>now = 50, node = ''host'', copy_error = None\<rparr> paired
         ''NEXUSCLIP_DISCOVER'' ''10.0.0.2''))) ''10.0.0.2'' = Some phone"
  by (simp add: handle_message_def handle_ack_def handle_clipboard_def
      respond_to_discovery_def decode_content_def b64decode_def b64_value_def decode_utf8_def
      byte_in_def send_to_def startswith_def paired_def phone_def start_def init_def
      SYNC_PORT_def CLIPBOARD_PREFIX_def ACK_PREFIX_def DEVICE_PREFIX_def
      DISCOVERY_MESSAGE_def char_of_eq_iff Let_def)

text \<open>
  C4, as the code has it. For a peer that is in the table, a heartbeat from its address
  sets its \<open>last_seen\<close> to the current time and a device announcement from its address
  replaces its entry by one whose \<open>last_seen\<close> is the current time. A discovery request, a
  clipboard frame and an acknowledgment leave the peer table as it was.
\<close>

theorem last_seen_refresh:
  assumes "map_of (discovered_devices st) sender = Some dev"
  shows "map_of (discovered_devices (fst (handle_message e st (encode Heartbeat) sender))) sender
      = Some (dev\<lparr>last_seen := now e\<rparr>)
    \<and> (CHR ''|'' \<notin> set p \<longrightarrow>
         map_of (discovered_devices
                   (fst (handle_message e st (encode (DeviceAnnounce p n)) sender))) sender
         = Some \<lparr>address = sender, platform = p, name = takeWhile (\<lambda>c. c \<noteq> CHR ''|'') n,
                 last_seen = now e\<rparr>)
    \<and> discovered_devices (fst (handle_message e st (encode Discover) sender))
      = discovered_devices st
    \<and> (startswith m CLIPBOARD_PREFIX \<longrightarrow>
         discovered_devices (fst (handle_message e st m sender)) = discovered_devices st)
    \<and> (startswith m ACK_PREFIX \<longrightarrow>
         discovered_devices (fst (handle_message e st m sender)) = discovered_devices st)"
  using handle_known_heartbeat [OF assms, of e] handle_announce [of p e st n sender]
    table_kept_discover [of e st sender] table_kept_clipboard [of m e st sender]
    table_kept_ack [of m e st sender]
  by (simp add: AList.update_conv del: encode.simps)

theorem last_seen_refresh_witness:
  "map_of (discovered_devices paired) ''10.0.0.2'' = Some phone
   \<and> map_of (discovered_devices (fst (handle_message \<lparr>now = 50, node = ''host'', copy_error = None\<rparr> paired
         ''NEXUSCLIP_HEARTBEAT'' ''10.0.0.2''))) ''10.0.0.2''
       = Some (phone\<lparr>last_seen := 50\<rparr>)
   \<and> map_of (discovered_devices (fst (handle_message \<lparr>now = 50, node = ''host'', copy_error = None\<rparr> paired
         ''NEXUSCLIP_DEVICE:Android|pixel'' ''10.0.0.2''))) ''10.0.0.2''
       = Some \<lparr>address = ''10.0.0.2'', platform = ''Android'', name = ''pixel'', last_seen = 50\<rparr>
   \<and> discovered_devices (fst (handle_message \<lparr>now = 50, node = ''host'', copy_error = None\<rparr> paired
         ''NEXUSCLIP_CLIP:aGk='' ''10.0.0.2'')) = discovered_devices paired
   \<and> discovered_devices (fst (handle_message \<lparr>now = 50, node = ''host'', copy_error = None\<rparr> paired
         ''NEXUSCLIP_ACK:RECEIVED'' ''10.0.0.2'')) = discovered_devices paired"
proof -
  have h: "map_of (discovered_devices paired) ''10.0.0.2'' = Some phone"
    by (simp add: paired_def)
  have p: "CHR ''|'' \<notin> set ''Android''"
    by simp
  have c: "startswith ''NEXUSCLIP_CLIP:aGk='' CLIPBOARD_PREFIX"
    by (simp add: startswith_def CLIPBOARD_PREFIX_def)
  have a: "startswith ''NEXUSCLIP_ACK:RECEIVED'' ACK_PREFIX"
    by (simp add: startswith_def ACK_PREFIX_def)
  have f: "encode Heartbeat = ''NEXUSCLIP_HEARTBEAT''"
    "encode (DeviceAnnounce ''Android'' ''pixel'') = ''NEXUSCLIP_DEVICE:Android|pixel''"
    by (simp_all add: HEARTBEAT_MESSAGE_def DEVICE_PREFIX_def)
  have t: "takeWhile (\<lambda>c. c \<noteq> CHR ''|'') ''pixel'' = ''pixel''"
    by simp
  from last_seen_refresh [OF h, of "\<lparr>now = 50, node = ''host'', copy_error = None\<rparr>" "''Android''" "''pixel''"
      "''NEXUSCLIP_CLIP:aGk=''"]
    last_seen_refresh [OF h, of "\<lparr>now = 50, node = ''host'', copy_error = None\<rparr>" "''Android''" "''pixel''"
      "''NEXUSCLIP_ACK:RECEIVED''"]
  show ?thesis
    using h p c a by (simp only: f t) simp
qed

text \<open>
  C8. The claim fails for an address that is already in the table: a device announcement
  from the known peer prints the "discovered" line again.
\<close>

theorem discovery_announced_once_counterexample:
  "map_of (discovered_devices paired) ''10.0.0.2'' = Some phone
   \<and> snd (handle_message \<lparr>now = 50, node = ''host'', copy_error = None\<rparr> paired
          ''NEXUSCLIP_DEVICE:Android|phone'' ''10.0.0.2'')
     = [Print (DeviceDiscovered (phone\<lparr>last_seen := 50\<rparr>))]"
  by (simp add: handle_message_def handle_device_response_def startswith_def paired_def
      phone_def start_def init_def DEVICE_PREFIX_def DISCOVERY_MESSAGE_def Let_def)

text \<open>
  C8, as the code has it. Every device announcement with a platform and a name, from an
  address in the table or not, stores the announced peer under the sender's address with
  the current time and prints the "discovered" line for it.
\<close>

theorem discovery_always_announced:
  assumes "CHR ''|'' \<notin> set p"
  shows "handle_message e st (encode (DeviceAnnounce p n)) sender =
    (st\<lparr>discovered_devices :=
          AList.update sender
            \<lparr>address = sender, platform = p, name = takeWhile (\<lambda>c. c \<noteq> CHR ''|'') n,
             last_seen = now e\<rparr>
            (discovered_devices st)\<rparr>,
     [Print (DeviceDiscovered
        \<lparr>address = sender, platform = p, name = takeWhile (\<lambda>c. c \<noteq> CHR ''|'') n,
         last_seen = now e\<rparr>)])"
  using assms by (rule handle_announce)

theorem discovery_always_announced_witness:
  "handle_message \<lparr>now = 50, node = ''host'', copy_error = None\<rparr> paired
      ''NEXUSCLIP_DEVICE:Android|phone'' ''10.0.0.2''
   = (paired\<lparr>discovered_devices := [(''10.0.0.2'', phone\<lparr>last_seen := 50\<rparr>)]\<rparr>,
      [Print (DeviceDiscovered (phone\<lparr>last_seen := 50\<rparr>))])
   \<and> handle_message \<lparr>now = 50, node = ''host'', copy_error = None\<rparr> paired
      ''NEXUSCLIP_DEVICE:Linux|laptop'' ''10.0.0.3''
   = (paired\<lparr>discovered_devices :=
        [(''10.0.0.2'', phone),
         (''10.0.0.3'', \<lparr>address = ''10.0.0.3'', platform = ''Linux'', name = ''laptop'',
                          last_seen = 50\<rparr>)]\<rparr>,
      [Print (DeviceDiscovered \<lparr>address = ''10.0.0.3'', platform = ''Linux'',
                                 name = ''laptop'', last_seen = 50\<rparr>)])"
proof -
  have p: "CHR ''|'' \<notin> set ''Android''" and q: "CHR ''|'' \<notin> set ''Linux''"
    by simp_all
  have f: "encode (DeviceAnnounce ''Android'' ''phone'') = ''NEXUSCLIP_DEVICE:Android|phone''"
    "encode (DeviceAnnounce ''Linux'' ''laptop'') = ''NEXUSCLIP_DEVICE:Linux|laptop''"
    by (simp_all add: DEVICE_PREFIX_def)
  from discovery_always_announced [OF p, of "\<lparr>now = 50, node = ''host'', copy_error = None\<rparr>" paired "''phone''"
      "''10.0.0.2''"]
    discovery_always_announced [OF q, of "\<lparr>now = 50, node = ''host'', copy_error = None\<rparr>" paired "''laptop''"
      "''10.0.0.3''"]
  show ?thesis
    by (simp only: f) (simp add: paired_def phone_def)
qed

section \<open>The size of outbound frames\<close>

lemma length_clipboard_frame:
  "length (encode (ClipboardPayload t)) = 15 + 4 * ((length t + 2) div 3)"
  by (simp add: length_b64encode CLIPBOARD_PREFIX_def)

lemma monitor_step_new_text:
  assumes "t \<noteq> []" and "t \<noteq> last_clipboard st"
  shows "clipboard_monitor_step st (Inr t) =
    (st\<lparr>last_clipboard := t\<rparr>,
     [SendTo (encode (ClipboardPayload t)) BROADCAST_ADDRESS (port st), Print (Sent t)])"
  using assms
  by (simp add: clipboard_monitor_step_def broadcast_clipboard_def broadcast_def Let_def)

text \<open>
  C9. The claim fails: for a text of 49152 characters the frame has 65551 bytes, more than
  the buffer size, and the outbound path does not fail at encoding. It updates the
  snapshot, passes the whole frame to the socket and prints the "sent" line.
\<close>

theorem oversized_frame_counterexample:
  "BUFFER_SIZE < length (encode (ClipboardPayload (replicate 49152 CHR ''a'')))
   \<and> clipboard_monitor_step (start (init SYNC_PORT False)) (Inr (replicate 49152 CHR ''a''))
     = ((start (init SYNC_PORT False))\<lparr>last_clipboard := replicate 49152 CHR ''a''\<rparr>,
        [SendTo (encode (ClipboardPayload (replicate 49152 CHR ''a''))) BROADCAST_ADDRESS 4040,
         Print (Sent (replicate 49152 CHR ''a''))])"
proof -
  have n: "replicate 49152 CHR ''a'' \<noteq> []"
    by simp
  have l: "replicate 49152 CHR ''a'' \<noteq> last_clipboard (start (init SYNC_PORT False))"
    by (simp add: start_def init_def)
  have p: "port (start (init SYNC_PORT False)) = 4040"
    by (simp add: start_def init_def SYNC_PORT_def)
  have "BUFFER_SIZE < length (encode (ClipboardPayload (replicate 49152 CHR ''a'')))"
    by (simp add: length_clipboard_frame BUFFER_SIZE_def del: encode.simps)
  then show ?thesis
    using monitor_step_new_text [OF n l] by (simp only: p)
qed

text \<open>
  C9, as the code has it. The outbound path checks no size. For every non-empty text that
  differs from the snapshot, of any length, it updates the snapshot and passes the whole
  frame, prefix and base64 of the complete text, to the socket in one call; the frame has
  \<open>15 + 4 * \<lceil>length / 3\<rceil>\<close> bytes and decodes to the text. No shortened frame is built.
\<close>

theorem outbound_frame_complete:
  assumes "t \<noteq> []" and "t \<noteq> last_clipboard st"
  shows "clipboard_monitor_step st (Inr t) =
      (st\<lparr>last_clipboard := t\<rparr>,
       [SendTo (encode (ClipboardPayload t)) BROADCAST_ADDRESS (port st), Print (Sent t)])
    \<and> length (encode (ClipboardPayload t)) = 15 + 4 * ((length t + 2) div 3)
    \<and> b64decode (drop (length CLIPBOARD_PREFIX) (encode (ClipboardPayload t))) = Inr t"
proof -
  have "drop (length CLIPBOARD_PREFIX) (encode (ClipboardPayload t)) = b64encode t"
    by simp
  then show ?thesis
    using monitor_step_new_text [OF assms] length_clipboard_frame [of t]
    by (simp only: b64decode_b64encode)
qed

theorem outbound_frame_complete_witness:
  "clipboard_monitor_step paired (Inr ''hi'') =
      (paired\<lparr>last_clipboard := ''hi''\<rparr>,
       [SendTo ''NEXUSCLIP_CLIP:aGk='' ''255.255.255.255'' 4040, Print (Sent ''hi'')])
    \<and> length ''NEXUSCLIP_CLIP:aGk='' = 15 + 4 * ((length ''hi'' + 2) div 3)
    \<and> b64decode ''aGk='' = Inr ''hi''"
proof -
  have n: "''hi'' \<noteq> []"
    by simp
  have l: "''hi'' \<noteq> last_clipboard paired"
    by (simp add: paired_def start_def init_def)
  have f: "encode (ClipboardPayload ''hi'') = ''NEXUSCLIP_CLIP:aGk=''"
    by (simp add: CLIPBOARD_PREFIX_def b64_char_def char_of_eq_iff)
  have d: "drop (length CLIPBOARD_PREFIX) ''NEXUSCLIP_CLIP:aGk='' = ''aGk=''"
    by (simp add: CLIPBOARD_PREFIX_def)
  have p: "port paired = 4040" "BROADCAST_ADDRESS = ''255.255.255.255''"
    by (simp_all add: paired_def start_def init_def SYNC_PORT_def BROADCAST_ADDRESS_def)
  from outbound_frame_complete [OF n l] show ?thesis
    by (simp only: f d p)
qed

section \<open>The peer table is a dictionary\<close>

text \<open>The table of a new daemon has one entry per address, and every handler and the
  clean-up keep it so; this is the assumption of the eviction theorem.\<close>

lemma init_table_distinct: "distinct (map fst (discovered_devices (start (init p v))))"
  by (simp add: start_def init_def)

lemma handle_message_table_distinct:
  assumes "distinct (map fst (discovered_devices st))"
  shows "distinct (map fst (discovered_devices (fst (handle_message e st m sender))))"
  using assms
  by (auto simp: handle_message_def respond_to_discovery_def handle_device_response_def
      handle_clipboard_def handle_ack_def handle_heartbeat_def Let_def AList.distinct_update
      split: sum.splits option.splits)

lemma pop_stale_table_distinct:
  "distinct (map fst devs) \<Longrightarrow> distinct (map fst (fst (pop_stale addrs devs)))"
proof (induction addrs arbitrary: devs)
  case Nil
  then show ?case by simp
next
  case (Cons a addrs)
  show ?case
  proof (cases "map_of devs a")
    case None
    then show ?thesis
      using Cons.IH [OF Cons.prems] by simp
  next
    case (Some dev)
    have "distinct (map fst (AList.delete a devs))"
      using Cons.prems by (rule AList.distinct_delete)
    from Cons.IH [OF this] Some show ?thesis
      by (cases "pop_stale addrs (AList.delete a devs)") simp
  qed
qed

lemma cleanup_table_distinct:
  assumes "distinct (map fst (discovered_devices st))"
  shows "distinct (map fst (discovered_devices (fst (cleanup_stale_devices e st))))"
proof -
  let ?addrs = "map fst (filter (\<lambda>(addr, dev). is_stale (now e) dev) (discovered_devices st))"
  obtain devs' ev where p: "pop_stale ?addrs (discovered_devices st) = (devs', ev)"
    by (cases "pop_stale ?addrs (discovered_devices st)")
  have "distinct (map fst devs')"
    using pop_stale_table_distinct [OF assms, of ?addrs] p by simp
  then show ?thesis
    using p by (simp add: cleanup_stale_devices_def Let_def)
qed

end
